theory Spec2Isabelle
  imports Main "HOL-Library.Word"
begin

unbundle bit_operations_syntax

section \<open>Data model\<close>

text \<open>
  The creation functions of LibAleph (\<^verbatim>\<open>src/src/new.c\<close>) on an LP64 target:
  \<^verbatim>\<open>size_t\<close> is a 64-bit unsigned word whose arithmetic wraps, \<^verbatim>\<open>char\<close> is a byte
  and \<^verbatim>\<open>a_cp\<close> (\<^verbatim>\<open>typedef int a_cp\<close>) a 32-bit word, read as signed with \<open>sint\<close>.
\<close>

type_synonym size_t = "64 word"
type_synonym byte = "8 word"
type_synonym a_cp = "32 word"

text \<open>
  \<^verbatim>\<open>struct a_header { size_t len; size_t size; size_t mem; }\<close>: the length in code
  points, the size in bytes and the recorded size of the buffer. The field \<^verbatim>\<open>size\<close>
  is \<open>size_h\<close> here, since \<open>size\<close> is a constant of HOL.
\<close>

record a_header =
  len :: size_t
  size_h :: size_t
  mem :: size_t

text \<open>
  One allocation: the header followed by the buffer (\<^verbatim>\<open>a_buff\<close> and \<^verbatim>\<open>a_header\<close>
  step between the two). The heap is the list of allocations made so far; an \<^verbatim>\<open>a_str\<close>
  is the index of its allocation, or \<open>None\<close> for \<^verbatim>\<open>NULL\<close>.
\<close>

record a_block =
  header :: a_header
  buff :: "byte list"

type_synonym heap = "a_block list"
type_synonym a_str = "nat option"

text \<open>
  A \<^verbatim>\<open>const char *\<close> argument is the list of bytes readable from the pointer on
  (terminator included), or \<open>None\<close> for \<^verbatim>\<open>NULL\<close>.
\<close>

type_synonym cstr = "byte list option"

text \<open>
  What a call does other than return: it loops forever, an \<^verbatim>\<open>assert\<close> aborts it, it
  dereferences \<^verbatim>\<open>NULL\<close>, or it reads or writes outside an object.
\<close>

datatype fault = Diverges | AssertFail | NullDeref | OutOfBounds

text \<open>
  The build and the collaborators the functions are compiled against: \<^verbatim>\<open>NDEBUG\<close>
  (standard asserts disabled), \<^verbatim>\<open>A_NULL_PASSTHROUGH\<close>, the allocator behind
  \<^verbatim>\<open>A_MALLOC\<close> (for the heap as it is and a number of bytes, no storage or the
  uninitialised contents of the new block: a header and the byte at every offset of the
  buffer) and the validator \<^verbatim>\<open>a_is_valid_utf8\<close>, which aleph.h declares and new.c only
  calls (its result is a pointer: an offset into the string, or \<open>None\<close> for \<^verbatim>\<open>NULL\<close>).
\<close>

record env =
  NDEBUG :: bool
  A_NULL_PASSTHROUGH :: bool
  A_MALLOC :: "heap \<Rightarrow> size_t \<Rightarrow> (a_header \<times> (nat \<Rightarrow> byte)) option"
  a_is_valid_utf8 :: "byte list \<Rightarrow> nat option"

definition A_MIN_STR_SIZE :: size_t where
  "A_MIN_STR_SIZE = 16"

definition A_MIN_CP :: a_cp where
  "A_MIN_CP = 0x000000"

definition A_MAX_CP :: a_cp where
  "A_MAX_CP = 0x10FFFF"

text \<open>\<^verbatim>\<open>sizeof (struct a_header)\<close>: three 8-byte fields.\<close>

definition sizeof_a_header :: size_t where
  "sizeof_a_header = 24"

section \<open>a\_new\_size\_raw\<close>

text \<open>
  The loop \<^verbatim>\<open>for (++l, size = A_MIN_STR_SIZE; size < l;) size <<= 1;\<close> after its
  initialisation: \<open>l\<close> is the incremented request. The loop need not end, so not
  returning is the value \<open>None\<close>.
\<close>

partial_function (option) a_new_size_raw_loop :: "size_t \<Rightarrow> size_t \<Rightarrow> size_t option" where
  "a_new_size_raw_loop l sz =
     (if sz < l then a_new_size_raw_loop l (push_bit 1 sz) else Some sz)"

text \<open>
  \<^verbatim>\<open>a_new_size_raw\<close>: the capacity, then \<^verbatim>\<open>A_MALLOC(sizeof *h + size)\<close>; no storage
  is \<^verbatim>\<open>NULL\<close> with the heap as it was. Otherwise \<^verbatim>\<open>h->mem = size\<close> is the only
  write: the other fields and the buffer stay as the allocator left them.
\<close>

definition a_new_size_raw :: "env \<Rightarrow> size_t \<Rightarrow> heap \<Rightarrow> fault + (a_str \<times> heap)" where
  "a_new_size_raw e l h =
     (case a_new_size_raw_loop (l + 1) A_MIN_STR_SIZE of
        None \<Rightarrow> Inl Diverges
      | Some sz \<Rightarrow>
          (case A_MALLOC e h (sizeof_a_header + sz) of
             None \<Rightarrow> Inr (None, h)
           | Some (junk_header, junk) \<Rightarrow>
               if unat (sizeof_a_header + sz) < unat sizeof_a_header then Inl OutOfBounds
               else Inr (Some (length h),
                 h @ [\<lparr>header = junk_header\<lparr>mem := sz\<rparr>,
                       buff = map junk [0..<unat (sizeof_a_header + sz) - unat sizeof_a_header]\<rparr>])))"

section \<open>The C library\<close>

text \<open>
  \<^verbatim>\<open>strlen\<close>: the number of bytes before the first zero; a string with no terminator is
  read past its end.
\<close>

definition strlen :: "byte list \<Rightarrow> fault + size_t" where
  "strlen s =
     (if 0 \<in> set s then Inr (of_nat (length (takeWhile (\<lambda>b. b \<noteq> 0) s)))
      else Inl OutOfBounds)"

text \<open>\<^verbatim>\<open>memcpy(dst + i, src, n)\<close> on buffers: \<open>n\<close> bytes of \<open>src\<close> over \<open>dst\<close> from \<open>i\<close>.\<close>

definition memcpy :: "byte list \<Rightarrow> nat \<Rightarrow> byte list \<Rightarrow> nat \<Rightarrow> fault + byte list" where
  "memcpy dst i src n =
     (if n \<le> length src \<and> i + n \<le> length dst
      then Inr (take i dst @ take n src @ drop (i + n) dst)
      else Inl OutOfBounds)"

text \<open>The store \<^verbatim>\<open>str[i] = c\<close>.\<close>

definition store :: "byte list \<Rightarrow> nat \<Rightarrow> byte \<Rightarrow> fault + byte list" where
  "store str i c = (if i < length str then Inr (str[i := c]) else Inl OutOfBounds)"

text \<open>
  \<^verbatim>\<open>memcpy\<close> of the first \<open>k\<close> bytes of an 8-byte field (little-endian, as on the
  targets with this \<^verbatim>\<open>size_t\<close>): the low \<open>k\<close> bytes come from the source, the others stay.
\<close>

definition memcpy_field :: "nat \<Rightarrow> size_t \<Rightarrow> size_t \<Rightarrow> size_t" where
  "memcpy_field k src dst =
     (if 8 \<le> k then src else (src AND mask (8 * k)) OR (dst AND NOT (mask (8 * k))))"

text \<open>
  \<^verbatim>\<open>memcpy(a_header(dst), a_header(src), n)\<close>: \<open>n\<close> bytes from the start of one
  allocation to the start of another, the header's fields first, then the buffer.
\<close>

definition memcpy_block :: "a_block \<Rightarrow> a_block \<Rightarrow> nat \<Rightarrow> fault + a_block" where
  "memcpy_block dst src n =
     (if n \<le> unat sizeof_a_header + length (buff src) \<and>
         n \<le> unat sizeof_a_header + length (buff dst)
      then Inr \<lparr>header =
                 \<lparr>len = memcpy_field n (len (header src)) (len (header dst)),
                  size_h = memcpy_field (n - 8) (size_h (header src)) (size_h (header dst)),
                  mem = memcpy_field (n - 16) (mem (header src)) (mem (header dst))\<rparr>,
               buff = take (n - unat sizeof_a_header) (buff src) @
                      drop (n - unat sizeof_a_header) (buff dst)\<rparr>
      else Inl OutOfBounds)"

section \<open>The codec functions new.c calls\<close>

text \<open>
  Modelled from the spec: the table \<^verbatim>\<open>a_next_char_size\<close> behind the macro
  \<^verbatim>\<open>a_size_chr\<close>, which aleph.h declares \<^verbatim>\<open>extern\<close> and no source file defines. The
  spec's \<open>leading_byte_length\<close>: \<open>0x00-0x7F\<close> is 1, \<open>0xC2-0xDF\<close> is 2, \<open>0xE0-0xEF\<close>
  is 3, \<open>0xF0-0xF4\<close> is 4, every other byte 1.
\<close>

definition a_size_chr :: "byte \<Rightarrow> size_t" where
  "a_size_chr c =
     (if c \<le> 0x7F then 1
      else if 0xC2 \<le> c \<and> c \<le> 0xDF then 2
      else if 0xE0 \<le> c \<and> c \<le> 0xEF then 3
      else if 0xF0 \<le> c \<and> c \<le> 0xF4 then 4
      else 1)"

text \<open>
  Modelled from the spec: \<^verbatim>\<open>a_len_cstr\<close>, declared in aleph.h, its body in no source
  file. The spec's \<open>codepoint_length\<close> of a terminated string: the count of code points
  before the terminator, each step as long as its leading byte says.
\<close>

fun a_len_cstr :: "byte list \<Rightarrow> fault + size_t" where
  "a_len_cstr [] = Inl OutOfBounds"
| "a_len_cstr (b # bs) =
     (if b = 0 then Inr 0
      else (case a_len_cstr (drop (unat (a_size_chr b) - 1) bs) of
              Inl f \<Rightarrow> Inl f
            | Inr n \<Rightarrow> Inr (n + 1)))"

text \<open>
  Modelled from the spec: \<^verbatim>\<open>a_size\<close>, declared in aleph.h, its body in no source
  file. The spec's \<open>byte_length\<close>: the header's count of bytes before the terminator.
\<close>

definition a_size :: "heap \<Rightarrow> nat \<Rightarrow> size_t" where
  "a_size h s = size_h (header (h ! s))"

text \<open>
  Modelled from the spec: \<^verbatim>\<open>a_to_utf8_size\<close>, declared in aleph.h, its body in no
  source file. The spec's \<open>encode\<close>: the shortest-form UTF-8 of the code point and the
  number of bytes written (1 to 4), the \<^verbatim>\<open>int\<close> stored through \<^verbatim>\<open>size\<close>.
\<close>

definition a_to_utf8_size :: "a_cp \<Rightarrow> byte list \<times> 32 word" where
  "a_to_utf8_size cp =
     (if sint cp < 0x80 then ([ucast cp], 1)
      else if sint cp < 0x800 then
        ([0xC0 OR ucast (drop_bit 6 cp), 0x80 OR (ucast cp AND 0x3F)], 2)
      else if sint cp < 0x10000 then
        ([0xE0 OR ucast (drop_bit 12 cp), 0x80 OR (ucast (drop_bit 6 cp) AND 0x3F),
          0x80 OR (ucast cp AND 0x3F)], 3)
      else
        ([0xF0 OR ucast (drop_bit 18 cp), 0x80 OR (ucast (drop_bit 12 cp) AND 0x3F),
          0x80 OR (ucast (drop_bit 6 cp) AND 0x3F), 0x80 OR (ucast cp AND 0x3F)], 4))"

section \<open>The assertions\<close>

text \<open>
  \<^verbatim>\<open>A_ASSERT_UTF8(s)\<close> is \<^verbatim>\<open>assert(!a_is_valid_utf8(s))\<close>: the asserted expression
  is true when the validator's pointer is \<^verbatim>\<open>NULL\<close>.
\<close>

definition A_ASSERT_UTF8 :: "env \<Rightarrow> byte list \<Rightarrow> bool" where
  "A_ASSERT_UTF8 e s = (a_is_valid_utf8 e s = None)"

text \<open>
  \<^verbatim>\<open>A_ASSERT_CODEPOINT(cp)\<close> is \<^verbatim>\<open>assert(A_MIN_CP <= (cp) && (cp) <= A_MAX_CP)\<close>, a
  comparison of \<^verbatim>\<open>int\<close>s.
\<close>

definition A_ASSERT_CODEPOINT :: "a_cp \<Rightarrow> bool" where
  "A_ASSERT_CODEPOINT cp = (sint A_MIN_CP \<le> sint cp \<and> sint cp \<le> sint A_MAX_CP)"

section \<open>The creation functions\<close>

text \<open>\<^verbatim>\<open>a_new_size\<close>: a raw buffer made the empty string.\<close>

definition a_new_size :: "env \<Rightarrow> size_t \<Rightarrow> heap \<Rightarrow> fault + (a_str \<times> heap)" where
  "a_new_size e l h =
     (case a_new_size_raw e l h of
        Inl f \<Rightarrow> Inl f
      | Inr (None, h') \<Rightarrow> Inr (None, h')
      | Inr (Some s, h') \<Rightarrow>
          (case store (buff (h' ! s)) 0 0 of
             Inl f \<Rightarrow> Inl f
           | Inr str \<Rightarrow>
               Inr (Some s,
                 h'[s := \<lparr>header = (header (h' ! s))\<lparr>len := 0, size_h := 0\<rparr>, buff = str\<rparr>])))"

text \<open>
  \<^verbatim>\<open>a_new_len\<close>: \<^verbatim>\<open>assert(s != NULL)\<close>, then \<^verbatim>\<open>PASSTHROUGH_ON_FAIL(s != NULL, NULL)\<close>,
  which returns only in a build with \<^verbatim>\<open>A_NULL_PASSTHROUGH\<close>. The length stored is
  \<^verbatim>\<open>a_len_cstr(s)\<close>, the size \<open>l\<close>.
\<close>

definition a_new_len :: "env \<Rightarrow> cstr \<Rightarrow> size_t \<Rightarrow> heap \<Rightarrow> fault + (a_str \<times> heap)" where
  "a_new_len e s l h =
     (if s = None \<and> \<not> NDEBUG e then Inl AssertFail
      else if s = None \<and> A_NULL_PASSTHROUGH e then Inr (None, h)
      else
        (case a_new_size_raw e (l + 1) h of
           Inl f \<Rightarrow> Inl f
         | Inr (None, h') \<Rightarrow> Inr (None, h')
         | Inr (Some str, h') \<Rightarrow>
             (case s of
                None \<Rightarrow> Inl NullDeref
              | Some bs \<Rightarrow>
                  (case memcpy (buff (h' ! str)) 0 bs (unat l) of
                     Inl f \<Rightarrow> Inl f
                   | Inr b1 \<Rightarrow>
                       (case store b1 (unat l) 0 of
                          Inl f \<Rightarrow> Inl f
                        | Inr b2 \<Rightarrow>
                            (case a_len_cstr bs of
                               Inl f \<Rightarrow> Inl f
                             | Inr n \<Rightarrow>
                                 Inr (Some str,
                                   h'[str := \<lparr>header = (header (h' ! str))\<lparr>len := n, size_h := l\<rparr>,
                                             buff = b2\<rparr>])))))))"

text \<open>
  \<^verbatim>\<open>a_new\<close>: \<^verbatim>\<open>s ? s : ""\<close> is asserted to be UTF-8 and handed to \<^verbatim>\<open>a_new_len\<close>
  with \<^verbatim>\<open>s ? strlen(s) : 0\<close>.
\<close>

definition a_new :: "env \<Rightarrow> cstr \<Rightarrow> heap \<Rightarrow> fault + (a_str \<times> heap)" where
  "a_new e s h =
     (let s' = (case s of None \<Rightarrow> [0] | Some bs \<Rightarrow> bs) in
      if \<not> NDEBUG e \<and> \<not> A_ASSERT_UTF8 e s' then Inl AssertFail
      else
        (case (case s of None \<Rightarrow> Inr 0 | Some bs \<Rightarrow> strlen bs) of
           Inl f \<Rightarrow> Inl f
         | Inr n \<Rightarrow> a_new_len e (Some s') n h))"

text \<open>
  \<^verbatim>\<open>a_new_dup\<close>: a buffer for \<^verbatim>\<open>a_size(s) + 1\<close> bytes, then one \<^verbatim>\<open>memcpy\<close> of the
  source's header and of \<^verbatim>\<open>a_size(s) + 1\<close> bytes of its buffer over the new allocation.
\<close>

definition a_new_dup :: "env \<Rightarrow> a_str \<Rightarrow> heap \<Rightarrow> fault + (a_str \<times> heap)" where
  "a_new_dup e s h =
     (if s = None \<and> \<not> NDEBUG e then Inl AssertFail
      else if s = None \<and> A_NULL_PASSTHROUGH e then Inr (None, h)
      else
        (case s of
           None \<Rightarrow> Inl NullDeref
         | Some p \<Rightarrow>
             if length h \<le> p then Inl OutOfBounds
             else
               (case a_new_size_raw e (a_size h p + 1) h of
                  Inl f \<Rightarrow> Inl f
                | Inr (None, h') \<Rightarrow> Inr (None, h')
                | Inr (Some dup, h') \<Rightarrow>
                    (case memcpy_block (h' ! dup) (h' ! p)
                            (unat (sizeof_a_header + a_size h' p + 1)) of
                       Inl f \<Rightarrow> Inl f
                     | Inr b \<Rightarrow> Inr (Some dup, h'[dup := b])))))"

text \<open>
  The loop \<^verbatim>\<open>for (i = 0; i < l; i += size) memcpy(str + i, chr, size);\<close> of
  \<^verbatim>\<open>a_new_chr_internal\<close>. With a \<open>size\<close> of zero it would not end.
\<close>

partial_function (option) a_new_chr_internal_loop ::
  "byte list \<Rightarrow> size_t \<Rightarrow> size_t \<Rightarrow> size_t \<Rightarrow> byte list \<Rightarrow> (fault + byte list) option" where
  "a_new_chr_internal_loop chr sz l i str =
     (if i < l then
        (case memcpy str (unat i) chr (unat sz) of
           Inl f \<Rightarrow> Some (Inl f)
         | Inr str' \<Rightarrow> a_new_chr_internal_loop chr sz l (i + sz) str')
      else Some (Inr str))"

definition a_new_chr_internal ::
  "env \<Rightarrow> byte list \<Rightarrow> size_t \<Rightarrow> size_t \<Rightarrow> heap \<Rightarrow> fault + (a_str \<times> heap)" where
  "a_new_chr_internal e chr sz repeat h =
     (let l = sz * repeat in
      case a_new_size_raw e (l + 1) h of
        Inl f \<Rightarrow> Inl f
      | Inr (None, h') \<Rightarrow> Inr (None, h')
      | Inr (Some str, h') \<Rightarrow>
          (case a_new_chr_internal_loop chr sz l 0 (buff (h' ! str)) of
             None \<Rightarrow> Inl Diverges
           | Some (Inl f) \<Rightarrow> Inl f
           | Some (Inr b1) \<Rightarrow>
               (case store b1 (unat l) 0 of
                  Inl f \<Rightarrow> Inl f
                | Inr b2 \<Rightarrow>
                    Inr (Some str,
                      h'[str := \<lparr>header = (header (h' ! str))\<lparr>len := repeat, size_h := l\<rparr>,
                                buff = b2\<rparr>]))))"

text \<open>
  \<^verbatim>\<open>a_new_cp\<close>: \<^verbatim>\<open>assert(cp != 0)\<close> and \<^verbatim>\<open>A_ASSERT_CODEPOINT(cp)\<close>, then the code
  point's UTF-8 repeated; the \<^verbatim>\<open>int\<close> size converts to \<^verbatim>\<open>size_t\<close> with its sign.
\<close>

definition a_new_cp :: "env \<Rightarrow> a_cp \<Rightarrow> size_t \<Rightarrow> heap \<Rightarrow> fault + (a_str \<times> heap)" where
  "a_new_cp e cp repeat h =
     (if \<not> NDEBUG e \<and> \<not> (cp \<noteq> 0) then Inl AssertFail
      else if \<not> NDEBUG e \<and> \<not> A_ASSERT_CODEPOINT cp then Inl AssertFail
      else
        (case a_to_utf8_size cp of
           (b, sz) \<Rightarrow> a_new_chr_internal e b (scast sz) repeat h))"

text \<open>
  \<^verbatim>\<open>a_new_chr\<close>: \<^verbatim>\<open>assert(*chr != 0)\<close>, then the character at \<open>chr\<close> repeated, as long
  as \<^verbatim>\<open>a_size_chr_cstr(chr)\<close> says. Both read \<^verbatim>\<open>*chr\<close>.
\<close>

definition a_new_chr :: "env \<Rightarrow> cstr \<Rightarrow> size_t \<Rightarrow> heap \<Rightarrow> fault + (a_str \<times> heap)" where
  "a_new_chr e chr repeat h =
     (case chr of
        None \<Rightarrow> Inl NullDeref
      | Some [] \<Rightarrow> Inl OutOfBounds
      | Some (c # cs) \<Rightarrow>
          if \<not> NDEBUG e \<and> \<not> (c \<noteq> 0) then Inl AssertFail
          else a_new_chr_internal e (c # cs) (a_size_chr c) repeat h)"

section \<open>The validator of the spec\<close>

text \<open>Modelled from the spec: a continuation byte, \<open>10xxxxxx\<close>.\<close>

definition is_continuation :: "byte \<Rightarrow> bool" where
  "is_continuation b = (b AND 0xC0 = 0x80)"

text \<open>
  Modelled from the spec: the length of the well-formed sequence a buffer starts with, or
  0 when it starts with none. What the spec has the validator reject gives none: the bytes \<open>0xC0\<close>, \<open>0xC1\<close> and
  \<open>0xF5..0xFF\<close>, an unexpected continuation, a truncated sequence, an overlong form
  (\<open>0xE0\<close> before \<open>0x80..0x9F\<close>, \<open>0xF0\<close> before \<open>0x80..0x8F\<close>), a surrogate (\<open>0xED\<close>
  before \<open>0xA0..0xBF\<close>) and a code above \<open>0x10FFFF\<close> (\<open>0xF4\<close> before \<open>0x90..0xBF\<close>).
\<close>

fun sequence_length :: "byte list \<Rightarrow> nat" where
  "sequence_length [] = 0"
| "sequence_length (b0 # bs) =
     (if b0 \<le> 0x7F then 1
      else if 0xC2 \<le> b0 \<and> b0 \<le> 0xDF then
        (case bs of
           b1 # _ \<Rightarrow> if is_continuation b1 then 2 else 0
         | _ \<Rightarrow> 0)
      else if 0xE0 \<le> b0 \<and> b0 \<le> 0xEF then
        (case bs of
           b1 # b2 # _ \<Rightarrow>
             if is_continuation b1 \<and> is_continuation b2 \<and>
                (if b0 = 0xE0 then 0xA0 \<le> b1 else True) \<and>
                (if b0 = 0xED then b1 \<le> 0x9F else True)
             then 3 else 0
         | _ \<Rightarrow> 0)
      else if 0xF0 \<le> b0 \<and> b0 \<le> 0xF4 then
        (case bs of
           b1 # b2 # b3 # _ \<Rightarrow>
             if is_continuation b1 \<and> is_continuation b2 \<and> is_continuation b3 \<and>
                (if b0 = 0xF0 then 0x90 \<le> b1 else True) \<and>
                (if b0 = 0xF4 then b1 \<le> 0x8F else True)
             then 4 else 0
         | _ \<Rightarrow> 0)
      else 0)"

text \<open>
  Modelled from the spec: the validator's scan from offset \<open>i\<close>, the bytes from there on
  in \<open>s\<close>. It stops at the terminator or at the first byte that starts no well-formed
  sequence, and returns the offset.
\<close>

function validate_from :: "nat \<Rightarrow> byte list \<Rightarrow> nat" where
  "validate_from i s =
     (if s = [] \<or> hd s = 0 \<or> sequence_length s = 0 then i
      else validate_from (i + sequence_length s) (drop (sequence_length s) s))"
  by pat_completeness auto
termination
  by (relation "measure (\<lambda>(i, s). length s)") auto

text \<open>
  Modelled from the spec: the validator \<^verbatim>\<open>a_is_valid_utf8\<close>, declared in aleph.h, its
  body in no source file. The spec's \<open>validate\<close>: it returns a pointer to the first
  invalid byte or to the end of the string, so never \<^verbatim>\<open>NULL\<close>.
\<close>

definition validate :: "byte list \<Rightarrow> nat option" where
  "validate s = Some (validate_from 0 s)"

text \<open>
  Modelled from the spec: a valid UTF-8 string, one where the scan ends at the terminator.
\<close>

definition valid_utf8 :: "byte list \<Rightarrow> bool" where
  "valid_utf8 s = (validate_from 0 s < length s \<and> s ! validate_from 0 s = 0)"

section \<open>The invariants of a string\<close>

text \<open>
  The spec's invariant 3 and I2 of the string at \<open>s\<close>: its \<open>byte_length\<close> is below its
  recorded capacity, and the byte of its buffer at \<open>byte_length\<close> is 0.
\<close>

definition terminated :: "heap \<Rightarrow> nat \<Rightarrow> bool" where
  "terminated h s =
     (s < length h \<and>
      size_h (header (h ! s)) < mem (header (h ! s)) \<and>
      unat (size_h (header (h ! s))) < length (buff (h ! s)) \<and>
      buff (h ! s) ! unat (size_h (header (h ! s))) = 0)"

text \<open>
  A source string a caller can hand over: it is terminated, and its allocation, header
  and buffer, fits the address space.
\<close>

definition a_valid :: "heap \<Rightarrow> nat \<Rightarrow> bool" where
  "a_valid h s = (terminated h s \<and> unat sizeof_a_header + length (buff (h ! s)) < 2 ^ 64)"

text \<open>\<open>n\<close> is the smallest power of two that is at least \<open>lo\<close>.\<close>

definition smallest_power_of_two :: "nat \<Rightarrow> nat \<Rightarrow> bool" where
  "smallest_power_of_two n lo =
     ((\<exists>k. n = 2 ^ k) \<and> lo \<le> n \<and> (\<forall>j. lo \<le> 2 ^ j \<longrightarrow> n \<le> 2 ^ j))"

section \<open>Builds and allocators to run the functions with\<close>

text \<open>An allocator that always has storage, filled with \<open>0xFF\<close> under a header of stale values.\<close>

definition malloc_stale :: "heap \<Rightarrow> size_t \<Rightarrow> (a_header \<times> (nat \<Rightarrow> byte)) option" where
  "malloc_stale h n = Some (\<lparr>len = 0xAAAA, size_h = 0xBBBB, mem = 0xCCCC\<rparr>, \<lambda>i. 0xFF)"

text \<open>
  An allocator that serves a request of 32 bytes at most: it has storage for a header, and
  none for a header and the smallest buffer.
\<close>

definition malloc_tight :: "heap \<Rightarrow> size_t \<Rightarrow> (a_header \<times> (nat \<Rightarrow> byte)) option" where
  "malloc_tight h n =
     (if n \<le> 32 then Some (\<lparr>len = 0xAAAA, size_h = 0xBBBB, mem = 0xCCCC\<rparr>, \<lambda>i. 0xFF)
      else None)"

text \<open>
  A debug build, a release build, one with \<^verbatim>\<open>NULL\<close> passthrough and one whose
  allocator refuses every request the functions make.
\<close>

definition env_debug :: env where
  "env_debug = \<lparr>NDEBUG = False, A_NULL_PASSTHROUGH = False, A_MALLOC = malloc_stale,
     a_is_valid_utf8 = validate\<rparr>"

definition env_release :: env where
  "env_release = \<lparr>NDEBUG = True, A_NULL_PASSTHROUGH = False, A_MALLOC = malloc_stale,
     a_is_valid_utf8 = validate\<rparr>"

definition env_passthrough :: env where
  "env_passthrough = \<lparr>NDEBUG = True, A_NULL_PASSTHROUGH = True, A_MALLOC = malloc_stale,
     a_is_valid_utf8 = validate\<rparr>"

definition env_tight :: env where
  "env_tight = \<lparr>NDEBUG = True, A_NULL_PASSTHROUGH = False, A_MALLOC = malloc_tight,
     a_is_valid_utf8 = validate\<rparr>"

text \<open>
  A validator as \<^verbatim>\<open>A_ASSERT_UTF8\<close> reads it: \<^verbatim>\<open>NULL\<close> for a valid string, else a pointer
  to the first invalid byte; and a debug build with it.
\<close>

definition validate_or_NULL :: "byte list \<Rightarrow> nat option" where
  "validate_or_NULL s = (if valid_utf8 s then None else Some (validate_from 0 s))"

definition env_debug_NULL :: env where
  "env_debug_NULL = \<lparr>NDEBUG = False, A_NULL_PASSTHROUGH = False, A_MALLOC = malloc_stale,
     a_is_valid_utf8 = validate_or_NULL\<rparr>"

text \<open>
  A string \<open>ab\<close> in a buffer of 32 bytes, the bytes after its terminator stale.
\<close>

definition wide_source :: a_block where
  "wide_source = \<lparr>header = \<lparr>len = 2, size_h = 2, mem = 32\<rparr>,
     buff = [0x61, 0x62, 0, 0x11, 0x11, 0x11, 0x11, 0x11, 0x11, 0x11, 0x11, 0x11, 0x11, 0x11, 0x11, 0x11,
             0x11, 0x11, 0x11, 0x11, 0x11, 0x11, 0x11, 0x11, 0x11, 0x11, 0x11, 0x11, 0x11, 0x11, 0x11, 0x11]\<rparr>"

section \<open>The capacity loop\<close>

lemma a_new_size_raw_loop_zero_aux:
  assumes "a_new_size_raw_loop l s = Some y"
  shows "\<not> (s = 0 \<and> 0 < l)"
proof (rule a_new_size_raw_loop.raw_induct[where P = "\<lambda>l s y. \<not> (s = 0 \<and> 0 < l)"])
  show "a_new_size_raw_loop l s = Some y" by fact
next
  fix f and l' s' y' :: size_t
  assume IH: "\<And>a b c. f a b = Some c \<Longrightarrow> \<not> (b = 0 \<and> 0 < a)"
    and step: "(if s' < l' then f l' (push_bit 1 s') else Some s') = Some y'"
  show "\<not> (s' = 0 \<and> 0 < l')"
  proof
    assume z: "s' = 0 \<and> 0 < l'"
    with step have "f l' 0 = Some y'" by simp
    from IH[OF this] z show False by simp
  qed
qed

lemma a_new_size_raw_loop_zero: "0 < l \<Longrightarrow> a_new_size_raw_loop l 0 = None"
  using a_new_size_raw_loop_zero_aux[of l 0] by (cases "a_new_size_raw_loop l 0") auto

lemma unat_shl1: "unat (push_bit 1 (sz :: size_t)) = (2 * unat sz) mod 2 ^ 64"
  by (simp add: push_bit_eq_mult unat_word_ariths mult.commute)

lemma a_new_size_raw_loop_returns:
  assumes "unat l \<le> 2 ^ 63"
  shows "unat sz = 2 ^ k \<Longrightarrow> 4 \<le> k \<Longrightarrow> k \<le> 63 \<Longrightarrow> k = 4 \<or> 2 ^ (k - 1) < unat l \<Longrightarrow>
    \<exists>c m. a_new_size_raw_loop l sz = Some c \<and> unat c = 2 ^ m \<and> 4 \<le> m \<and> m \<le> 63 \<and>
      unat l \<le> 2 ^ m \<and> (m = 4 \<or> 2 ^ (m - 1) < unat l)"
proof (induction "63 - k" arbitrary: k sz)
  case 0
  then have k: "k = 63" by simp
  with 0 assms have "\<not> sz < l" by (simp add: word_less_nat_alt)
  then have "a_new_size_raw_loop l sz = Some sz"
    by (simp add: a_new_size_raw_loop.simps)
  moreover have "unat sz = 2 ^ 63" using 0 k by simp
  moreover have "(63::nat) = 4 \<or> (2::nat) ^ (63 - 1) < unat l" using 0 k by simp
  ultimately show ?case using assms by (intro exI[of _ sz] exI[of _ 63]) simp
next
  case (Suc n)
  show ?case
  proof (cases "sz < l")
    case False
    then have "a_new_size_raw_loop l sz = Some sz"
      by (simp add: a_new_size_raw_loop.simps)
    moreover from False Suc.prems have "unat l \<le> 2 ^ k" by (simp add: word_less_nat_alt)
    ultimately show ?thesis using Suc.prems by auto
  next
    case True
    from Suc.hyps(2) have k: "k < 63" by simp
    then have "(2::nat) ^ Suc k \<le> 2 ^ 63" by (intro power_increasing) auto
    then have "(2::nat) * 2 ^ k < 2 ^ 64" by simp
    then have u: "unat (push_bit 1 sz) = 2 ^ Suc k"
      using Suc.prems(1) by (simp only: unat_shl1) simp
    from True Suc.prems(1) have lt: "2 ^ (Suc k - 1) < unat l"
      by (simp add: word_less_nat_alt)
    have "\<exists>c m. a_new_size_raw_loop l (push_bit 1 sz) = Some c \<and> unat c = 2 ^ m \<and> 4 \<le> m \<and>
        m \<le> 63 \<and> unat l \<le> 2 ^ m \<and> (m = 4 \<or> 2 ^ (m - 1) < unat l)"
      using Suc.hyps(1)[of "Suc k" "push_bit 1 sz"] Suc.hyps(2) u k Suc.prems(2) lt
      by auto
    moreover have "a_new_size_raw_loop l sz = a_new_size_raw_loop l (push_bit 1 sz)"
      using True by (subst a_new_size_raw_loop.simps) simp
    ultimately show ?thesis by simp
  qed
qed

lemma a_new_size_raw_loop_diverges:
  assumes "2 ^ 63 < unat l"
  shows "unat sz = 2 ^ k \<Longrightarrow> k \<le> 63 \<Longrightarrow> a_new_size_raw_loop l sz = None"
proof (induction "63 - k" arbitrary: k sz)
  case 0
  then have k: "k = 63" by simp
  with 0 assms have lt: "sz < l" by (simp add: word_less_nat_alt)
  have "unat (push_bit 1 sz) = (2 * 2 ^ 63) mod 2 ^ 64" using 0 k by (simp only: unat_shl1)
  then have "unat (push_bit 1 sz) = 0" by simp
  then have z: "push_bit 1 sz = 0" by (simp add: unat_eq_0)
  have "0 < l" using assms by (simp add: word_less_nat_alt)
  then have "a_new_size_raw_loop l 0 = None" by (rule a_new_size_raw_loop_zero)
  with lt z show ?case by (subst a_new_size_raw_loop.simps) simp
next
  case (Suc n)
  from Suc.hyps(2) have k: "k < 63" by simp
  then have le: "(2::nat) ^ k \<le> 2 ^ 63" by (intro power_increasing) auto
  with assms Suc.prems have lt: "sz < l" by (simp add: word_less_nat_alt)
  from k have "(2::nat) ^ Suc k \<le> 2 ^ 63" by (intro power_increasing) auto
  then have "(2::nat) * 2 ^ k < 2 ^ 64" by simp
  then have u: "unat (push_bit 1 sz) = 2 ^ Suc k"
    using Suc.prems(1) by (simp only: unat_shl1) simp
  have "a_new_size_raw_loop l (push_bit 1 sz) = None"
    using Suc.hyps(1)[of "Suc k" "push_bit 1 sz"] Suc.hyps(2) u k by auto
  with lt show ?case by (subst a_new_size_raw_loop.simps) simp
qed

section \<open>What a returned allocation looks like\<close>

lemma unat_sizeof_plus:
  assumes "\<not> unat (sizeof_a_header + sz) < unat sizeof_a_header"
  shows "unat (sizeof_a_header + sz) - unat sizeof_a_header = unat sz"
proof -
  have lt: "unat sz < 2 ^ 64" using unsigned_less[of sz, where ?'a = nat] by simp
  have eq: "unat (sizeof_a_header + sz) = (24 + unat sz) mod 2 ^ 64"
    by (simp add: sizeof_a_header_def unat_word_ariths)
  show ?thesis
  proof (cases "24 + unat sz < 2 ^ 64")
    case True
    then show ?thesis using eq by (simp add: sizeof_a_header_def)
  next
    case False
    then have "(24 + unat sz) mod 2 ^ 64 = 24 + unat sz - 2 ^ 64"
      using lt by (simp add: mod_if)
    with eq lt assms show ?thesis by (simp add: sizeof_a_header_def)
  qed
qed

lemma a_new_size_raw_Some:
  assumes "a_new_size_raw e l h = Inr (Some s, h')"
  shows "\<exists>sz junk_header junk.
     a_new_size_raw_loop (l + 1) A_MIN_STR_SIZE = Some sz \<and>
     A_MALLOC e h (sizeof_a_header + sz) = Some (junk_header, junk) \<and>
     s = length h \<and>
     h' = h @ [\<lparr>header = junk_header\<lparr>mem := sz\<rparr>, buff = map junk [0..<unat sz]\<rparr>]"
  using assms unfolding a_new_size_raw_def
  by (auto split: option.splits if_splits simp: unat_sizeof_plus)

lemma a_new_size_raw_None:
  "a_new_size_raw e l h = Inr (None, h') \<Longrightarrow> h' = h"
  unfolding a_new_size_raw_def by (auto split: option.splits if_splits)

lemma a_new_size_raw_fault:
  "a_new_size_raw e l h = Inl f \<Longrightarrow> f = Diverges \<or> f = OutOfBounds"
  unfolding a_new_size_raw_def by (auto split: option.splits if_splits)

lemma a_new_size_raw_no_storage:
  "a_new_size_raw_loop (l + 1) A_MIN_STR_SIZE = Some sz \<Longrightarrow>
   A_MALLOC e h (sizeof_a_header + sz) = None \<Longrightarrow> a_new_size_raw e l h = Inr (None, h)"
  unfolding a_new_size_raw_def by simp

lemma capacity_smallest:
  assumes "unat l \<le> 2 ^ 63" and "a_new_size_raw_loop l A_MIN_STR_SIZE = Some c"
  shows "smallest_power_of_two (unat c) (max (unat A_MIN_STR_SIZE) (unat l))"
proof -
  have "unat A_MIN_STR_SIZE = 2 ^ 4" by (simp add: A_MIN_STR_SIZE_def)
  from a_new_size_raw_loop_returns[OF assms(1) this] assms(2)
  obtain m where m: "unat c = 2 ^ m" "4 \<le> m" "m \<le> 63" "unat l \<le> 2 ^ m"
    "m = 4 \<or> 2 ^ (m - 1) < unat l" by auto
  have "unat c \<le> 2 ^ j" if j: "max (unat A_MIN_STR_SIZE) (unat l) \<le> 2 ^ j" for j
  proof (cases "m = 4")
    case True
    then show ?thesis using m(1) j by (simp add: A_MIN_STR_SIZE_def)
  next
    case False
    with m(5) have "(2::nat) ^ (m - 1) < unat l" by simp
    moreover from j have "unat l \<le> 2 ^ j" by simp
    ultimately have "(2::nat) ^ (m - 1) < 2 ^ j" by (rule less_le_trans)
    then have "m - 1 < j" by (rule power_less_imp_less_exp[rotated]) simp
    then have "m \<le> j" by simp
    then have "(2::nat) ^ m \<le> 2 ^ j" by (intro power_increasing) auto
    then show ?thesis using m(1) by simp
  qed
  moreover have "(2::nat) ^ 4 \<le> 2 ^ m" using m(2) by (intro power_increasing) auto
  ultimately show ?thesis
    unfolding smallest_power_of_two_def using m by (auto simp: A_MIN_STR_SIZE_def)
qed

lemma capacity_returns_iff:
  "(\<exists>c. a_new_size_raw_loop l A_MIN_STR_SIZE = Some c) \<longleftrightarrow> unat l \<le> 2 ^ 63"
proof
  assume "\<exists>c. a_new_size_raw_loop l A_MIN_STR_SIZE = Some c"
  then show "unat l \<le> 2 ^ 63"
    using a_new_size_raw_loop_diverges[of l A_MIN_STR_SIZE 4]
    by (cases "unat l \<le> 2 ^ 63") (auto simp: A_MIN_STR_SIZE_def)
next
  assume "unat l \<le> 2 ^ 63"
  from a_new_size_raw_loop_returns[OF this, of A_MIN_STR_SIZE 4]
  show "\<exists>c. a_new_size_raw_loop l A_MIN_STR_SIZE = Some c"
    by (auto simp: A_MIN_STR_SIZE_def)
qed


lemma a_new_size_raw_diverges_above:
  assumes "2 ^ 63 \<le> unat l" and "unat l < 2 ^ 64 - 1"
  shows "a_new_size_raw e l h = Inl Diverges"
proof -
  from assms(2) have "unat (l + 1) = unat l + 1" by (simp add: unat_word_ariths)
  with assms(1) have "2 ^ 63 < unat (l + 1)" by simp
  from a_new_size_raw_loop_diverges[OF this, of A_MIN_STR_SIZE 4]
  have "a_new_size_raw_loop (l + 1) A_MIN_STR_SIZE = None"
    by (simp add: A_MIN_STR_SIZE_def)
  then show ?thesis by (simp add: a_new_size_raw_def)
qed

lemma memcpy_length: "memcpy dst i src n = Inr d \<Longrightarrow> length d = length dst"
  by (auto simp: memcpy_def split: if_splits)

lemma store_Inr: "store str i c = Inr b \<Longrightarrow> i < length str \<and> b = str[i := c]"
  by (auto simp: store_def split: if_splits)

lemma a_new_chr_internal_loop_length:
  assumes "a_new_chr_internal_loop chr sz l i str = Some r"
  shows "\<forall>b. r = Inr b \<longrightarrow> length b = length str"
proof (rule a_new_chr_internal_loop.raw_induct[where
      P = "\<lambda>chr sz l i str r. \<forall>b. r = Inr b \<longrightarrow> length b = length str"])
  show "a_new_chr_internal_loop chr sz l i str = Some r" by fact
next
  fix f chr' and sz' l' i' :: size_t and str' r'
  assume IH: "\<And>c s l i t r. f c s l i t = Some r \<Longrightarrow> \<forall>b. r = Inr b \<longrightarrow> length b = length t"
    and step: "(if i' < l' then
        (case memcpy str' (unat i') chr' (unat sz') of
           Inl f \<Rightarrow> Some (Inl f)
         | Inr s'' \<Rightarrow> f chr' sz' l' (i' + sz') s'')
      else Some (Inr str')) = Some r'"
  show "\<forall>b. r' = Inr b \<longrightarrow> length b = length str'"
    using step IH by (auto split: if_splits sum.splits dest!: memcpy_length)
qed

lemma a_new_chr_internal_loop_fault:
  assumes "a_new_chr_internal_loop chr sz l i str = Some r"
  shows "\<forall>x. r = Inl x \<longrightarrow> x = OutOfBounds"
proof (rule a_new_chr_internal_loop.raw_induct[where
      P = "\<lambda>chr sz l i str r. \<forall>x. r = Inl x \<longrightarrow> x = OutOfBounds"])
  show "a_new_chr_internal_loop chr sz l i str = Some r" by fact
next
  fix f chr' and sz' l' i' :: size_t and str' r'
  assume IH: "\<And>c s l i t r. f c s l i t = Some r \<Longrightarrow> \<forall>x. r = Inl x \<longrightarrow> x = OutOfBounds"
    and step: "(if i' < l' then
        (case memcpy str' (unat i') chr' (unat sz') of
           Inl f \<Rightarrow> Some (Inl f)
         | Inr s'' \<Rightarrow> f chr' sz' l' (i' + sz') s'')
      else Some (Inr str')) = Some r'"
  show "\<forall>x. r' = Inl x \<longrightarrow> x = OutOfBounds"
    using step IH by (auto split: if_splits sum.splits simp: memcpy_def)
qed

lemma terminated_update:
  assumes "s < length h" and "length b1 = unat (mem hdr)" and "store b1 (unat l) 0 = Inr b2"
  shows "terminated (h[s := \<lparr>header = hdr\<lparr>len := n, size_h := l\<rparr>, buff = b2\<rparr>]) s"
proof -
  from store_Inr[OF assms(3)] have l: "unat l < length b1" and b2: "b2 = b1[unat l := 0]"
    by simp_all
  from l assms(2) have "l < mem hdr" by (simp add: word_less_nat_alt)
  with l b2 assms(1) show ?thesis by (simp add: terminated_def)
qed

lemma a_new_size_terminated:
  assumes "a_new_size e l h = Inr (Some s, h')"
  shows "terminated h' s"
proof -
  from assms obtain h1 str where
    raw: "a_new_size_raw e l h = Inr (Some s, h1)" and
    st: "store (buff (h1 ! s)) 0 0 = Inr str" and
    h': "h' = h1[s := \<lparr>header = (header (h1 ! s))\<lparr>len := 0, size_h := 0\<rparr>, buff = str\<rparr>]"
    unfolding a_new_size_def by (auto split: sum.splits option.splits)
  from a_new_size_raw_Some[OF raw] have s: "s < length h1"
    and len: "length (buff (h1 ! s)) = unat (mem (header (h1 ! s)))"
    by auto
  from terminated_update[OF s len, of 0 str 0] st h' show ?thesis by simp
qed

lemma a_new_len_terminated:
  assumes "a_new_len e bs l h = Inr (Some s, h')"
  shows "terminated h' s"
proof -
  from assms obtain h1 src b1 b2 n where
    raw: "a_new_size_raw e (l + 1) h = Inr (Some s, h1)" and
    cp: "memcpy (buff (h1 ! s)) 0 src (unat l) = Inr b1" and
    st: "store b1 (unat l) 0 = Inr b2" and
    h': "h' = h1[s := \<lparr>header = (header (h1 ! s))\<lparr>len := n, size_h := l\<rparr>, buff = b2\<rparr>]"
    unfolding a_new_len_def by (auto split: sum.splits option.splits if_splits)
  from a_new_size_raw_Some[OF raw] have s: "s < length h1"
    and len: "length (buff (h1 ! s)) = unat (mem (header (h1 ! s)))"
    by auto
  from memcpy_length[OF cp] len have "length b1 = unat (mem (header (h1 ! s)))" by simp
  from terminated_update[OF s this st] h' show ?thesis by simp
qed

lemma a_new_terminated:
  assumes "a_new e bs h = Inr (Some s, h')"
  shows "terminated h' s"
  using assms unfolding a_new_def Let_def
  by (auto split: if_splits sum.splits dest: a_new_len_terminated)

lemma a_new_chr_internal_terminated:
  assumes "a_new_chr_internal e chr sz repeat h = Inr (Some s, h')"
  shows "terminated h' s"
proof -
  from assms obtain h1 b1 b2 where
    raw: "a_new_size_raw e (sz * repeat + 1) h = Inr (Some s, h1)" and
    loop: "a_new_chr_internal_loop chr sz (sz * repeat) 0 (buff (h1 ! s)) = Some (Inr b1)" and
    st: "store b1 (unat (sz * repeat)) 0 = Inr b2" and
    h': "h' = h1[s := \<lparr>header = (header (h1 ! s))\<lparr>len := repeat, size_h := sz * repeat\<rparr>,
                      buff = b2\<rparr>]"
    unfolding a_new_chr_internal_def Let_def
    by (auto split: sum.splits option.splits)
  from a_new_size_raw_Some[OF raw] have s: "s < length h1"
    and len: "length (buff (h1 ! s)) = unat (mem (header (h1 ! s)))"
    by auto
  from a_new_chr_internal_loop_length[OF loop] len
  have "length b1 = unat (mem (header (h1 ! s)))" by simp
  from terminated_update[OF s this st] h' show ?thesis by simp
qed

lemma a_new_cp_terminated:
  "a_new_cp e cp repeat h = Inr (Some s, h') \<Longrightarrow> terminated h' s"
  unfolding a_new_cp_def
  by (auto split: if_splits prod.splits dest: a_new_chr_internal_terminated)

lemma a_new_chr_terminated:
  "a_new_chr e chr repeat h = Inr (Some s, h') \<Longrightarrow> terminated h' s"
  unfolding a_new_chr_def
  by (auto split: if_splits option.splits list.splits dest: a_new_chr_internal_terminated)

lemma a_new_dup_Some:
  assumes v: "a_valid h p" and dup: "a_new_dup e (Some p) h = Inr (Some d, h')"
  shows "\<exists>sz junk_header junk.
     a_new_size_raw_loop (a_size h p + 1 + 1) A_MIN_STR_SIZE = Some sz \<and>
     A_MALLOC e h (sizeof_a_header + sz) = Some (junk_header, junk) \<and>
     unat (a_size h p) + 1 \<le> unat sz \<and>
     d = length h \<and>
     h' = h @ [\<lparr>header = header (h ! p),
                buff = take (unat (a_size h p) + 1) (buff (h ! p)) @
                       drop (unat (a_size h p) + 1) (map junk [0..<unat sz])\<rparr>]"
proof -
  from v have p: "p < length h" and
    inb: "unat (a_size h p) < length (buff (h ! p))" and
    fits: "unat sizeof_a_header + length (buff (h ! p)) < 2 ^ 64"
    by (simp_all add: a_valid_def terminated_def a_size_def)
  from dup p obtain h1 b where
    raw: "a_new_size_raw e (a_size h p + 1) h = Inr (Some d, h1)" and
    cp: "memcpy_block (h1 ! d) (h1 ! p) (unat (sizeof_a_header + a_size h1 p + 1)) = Inr b" and
    h': "h' = h1[d := b]"
    unfolding a_new_dup_def by (auto split: sum.splits option.splits if_splits)
  from a_new_size_raw_Some[OF raw] obtain sz junk_header junk where
    loop: "a_new_size_raw_loop (a_size h p + 1 + 1) A_MIN_STR_SIZE = Some sz" and
    al: "A_MALLOC e h (sizeof_a_header + sz) = Some (junk_header, junk)" and
    d: "d = length h" and
    h1: "h1 = h @ [\<lparr>header = junk_header\<lparr>mem := sz\<rparr>, buff = map junk [0..<unat sz]\<rparr>]"
    by blast
  from p h1 have src: "h1 ! p = h ! p" by (simp add: nth_append)
  then have sz_eq: "a_size h1 p = a_size h p" by (simp add: a_size_def)
  from d h1 have dst: "h1 ! d = \<lparr>header = junk_header\<lparr>mem := sz\<rparr>, buff = map junk [0..<unat sz]\<rparr>"
    by simp
  have n: "unat (sizeof_a_header + a_size h p + 1) = 25 + unat (a_size h p)"
    using inb fits by (simp add: sizeof_a_header_def unat_word_ariths)
  from cp have b: "unat (a_size h p) + 1 \<le> unat sz \<and>
      b = \<lparr>header = header (h ! p),
           buff = take (unat (a_size h p) + 1) (buff (h ! p)) @
                  drop (unat (a_size h p) + 1) (map junk [0..<unat sz])\<rparr>"
    unfolding src sz_eq n dst memcpy_block_def
    by (auto split: if_splits simp: sizeof_a_header_def memcpy_field_def)
  with h' d h1 loop al show ?thesis by auto
qed

lemma a_new_dup_terminated:
  assumes v: "a_valid h p" and dup: "a_new_dup e (Some p) h = Inr (Some d, h')"
  shows "terminated h' d"
proof -
  from a_new_dup_Some[OF v dup] obtain sz :: size_t and junk where
    le: "unat (a_size h p) + 1 \<le> unat sz" and d: "d = length h" and
    h': "h' = h @ [\<lparr>header = header (h ! p),
                buff = take (unat (a_size h p) + 1) (buff (h ! p)) @
                       drop (unat (a_size h p) + 1) (map junk [0..<unat sz])\<rparr>]"
    by auto
  from v have t: "size_h (header (h ! p)) < mem (header (h ! p))"
    "unat (a_size h p) < length (buff (h ! p))"
    "buff (h ! p) ! unat (a_size h p) = 0"
    by (simp_all add: a_valid_def terminated_def a_size_def)
  from t(2) have "(take (unat (a_size h p) + 1) (buff (h ! p)) @
      drop (unat (a_size h p) + 1) (map junk [0..<unat sz])) ! unat (a_size h p)
      = buff (h ! p) ! unat (a_size h p)"
    by (simp add: nth_append)
  with t d h' le show ?thesis
    by (simp add: terminated_def a_size_def)
qed

lemma a_len_cstr_fault: "a_len_cstr bs = Inl f \<Longrightarrow> f = OutOfBounds"
  by (induction bs arbitrary: f rule: a_len_cstr.induct) (auto split: if_splits sum.splits)

lemma a_new_len_no_abort: "a_new_len e (Some bs) l h \<noteq> Inl AssertFail"
  unfolding a_new_len_def
  by (auto split: sum.splits option.splits prod.splits
      simp: memcpy_def store_def
      dest: a_new_size_raw_fault a_len_cstr_fault)

lemma a_new_chr_internal_no_abort: "a_new_chr_internal e chr sz repeat h \<noteq> Inl AssertFail"
  unfolding a_new_chr_internal_def Let_def
  by (auto split: sum.splits option.splits prod.splits
      simp: store_def
      dest: a_new_size_raw_fault a_new_chr_internal_loop_fault)

lemma validate_pointer: "validate s \<noteq> None"
  by (simp add: validate_def)

lemma a_new_no_abort:
  "NDEBUG e \<or> A_ASSERT_UTF8 e (case cs of None \<Rightarrow> [0] | Some bs \<Rightarrow> bs) \<Longrightarrow>
   a_new e cs h \<noteq> Inl AssertFail"
  unfolding a_new_def Let_def
  using a_new_len_no_abort
  by (auto split: sum.splits option.splits simp: strlen_def)

section \<open>The functions run on small inputs\<close>

lemma loop_3: "a_new_size_raw_loop 3 16 = Some 16"
  by (simp add: a_new_size_raw_loop.simps)

lemma loop_4: "a_new_size_raw_loop 4 16 = Some 16"
  by (simp add: a_new_size_raw_loop.simps)

lemma loop_6: "a_new_size_raw_loop 6 16 = Some 16"
  by (simp add: a_new_size_raw_loop.simps)

lemmas run_raw = a_new_size_raw_def A_MIN_STR_SIZE_def sizeof_a_header_def malloc_stale_def
  memcpy_def store_def upt_rec

lemma run_a_new:
  "a_new env_release (Some [0x61, 0x62, 0]) [] =
     Inr (Some 0, [\<lparr>header = \<lparr>len = 2, size_h = 2, mem = 16\<rparr>,
       buff = [0x61, 0x62, 0, 0xFF, 0xFF, 0xFF, 0xFF, 0xFF,
               0xFF, 0xFF, 0xFF, 0xFF, 0xFF, 0xFF, 0xFF, 0xFF]\<rparr>])"
  by (simp add: a_new_def a_new_len_def strlen_def env_release_def loop_4 a_size_chr_def run_raw)

lemma run_a_new_len:
  "a_new_len env_release (Some [0x61, 0x62, 0]) 2 [] =
     Inr (Some 0, [\<lparr>header = \<lparr>len = 2, size_h = 2, mem = 16\<rparr>,
       buff = [0x61, 0x62, 0, 0xFF, 0xFF, 0xFF, 0xFF, 0xFF,
               0xFF, 0xFF, 0xFF, 0xFF, 0xFF, 0xFF, 0xFF, 0xFF]\<rparr>])"
  by (simp add: a_new_len_def env_release_def loop_4 a_size_chr_def run_raw)

lemma run_a_new_size:
  "a_new_size env_release 5 [] =
     Inr (Some 0, [\<lparr>header = \<lparr>len = 0, size_h = 0, mem = 16\<rparr>,
       buff = [0, 0xFF, 0xFF, 0xFF, 0xFF, 0xFF, 0xFF, 0xFF,
               0xFF, 0xFF, 0xFF, 0xFF, 0xFF, 0xFF, 0xFF, 0xFF]\<rparr>])"
  by (simp add: a_new_size_def env_release_def loop_6 run_raw)

lemma run_a_new_cp:
  "a_new_cp env_release 0x41 2 [] =
     Inr (Some 0, [\<lparr>header = \<lparr>len = 2, size_h = 2, mem = 16\<rparr>,
       buff = [0x41, 0x41, 0, 0xFF, 0xFF, 0xFF, 0xFF, 0xFF,
               0xFF, 0xFF, 0xFF, 0xFF, 0xFF, 0xFF, 0xFF, 0xFF]\<rparr>])"
  by (simp add: a_new_cp_def a_to_utf8_size_def a_new_chr_internal_def
      a_new_chr_internal_loop.simps env_release_def loop_4 run_raw)

lemma run_a_new_chr:
  "a_new_chr env_release (Some [0xC3, 0xA9, 0]) 2 [] =
     Inr (Some 0, [\<lparr>header = \<lparr>len = 2, size_h = 4, mem = 16\<rparr>,
       buff = [0xC3, 0xA9, 0xC3, 0xA9, 0, 0xFF, 0xFF, 0xFF,
               0xFF, 0xFF, 0xFF, 0xFF, 0xFF, 0xFF, 0xFF, 0xFF]\<rparr>])"
  by (simp add: a_new_chr_def a_size_chr_def a_new_chr_internal_def
      a_new_chr_internal_loop.simps env_release_def loop_6 run_raw)

lemma wide_source_valid: "a_valid [wide_source] 0"
  by (simp add: a_valid_def terminated_def wide_source_def sizeof_a_header_def)

lemma run_a_new_dup:
  "a_new_dup env_release (Some 0) [wide_source] =
     Inr (Some 1, [wide_source, \<lparr>header = \<lparr>len = 2, size_h = 2, mem = 32\<rparr>,
       buff = [0x61, 0x62, 0, 0xFF, 0xFF, 0xFF, 0xFF, 0xFF,
               0xFF, 0xFF, 0xFF, 0xFF, 0xFF, 0xFF, 0xFF, 0xFF]\<rparr>])"
  by (simp add: a_new_dup_def a_size_def wide_source_def memcpy_block_def memcpy_field_def
      env_release_def loop_4 run_raw)


lemma loop_5: "a_new_size_raw_loop 5 16 = Some 16"
  by (simp add: a_new_size_raw_loop.simps)

lemma malloc_tight_serves: "A_MALLOC env_tight h 24 \<noteq> None"
  by (simp add: env_tight_def malloc_tight_def)

lemma malloc_tight_refuses: "A_MALLOC env_tight h (sizeof_a_header + 16) = None"
  by (simp add: env_tight_def malloc_tight_def sizeof_a_header_def)


lemma valid_e_acute: "valid_utf8 [0xC3, 0xA9, 0]"
  by (simp add: valid_utf8_def is_continuation_def)

lemma invalid_overlong: "\<not> valid_utf8 [0xC0, 0x80, 0]"
  by (simp add: valid_utf8_def)

section \<open>The capacity of a raw buffer\<close>



text \<open>
  Claim C8. The claim is that the capacity loop of \<^verbatim>\<open>a_new_size_raw\<close> ends for every
  \<open>l\<close>. It does not: at \<open>l = 2 ^ 63\<close> the incremented request is above every power of two
  of a \<^verbatim>\<open>size_t\<close>, the shift takes \<open>size\<close> from \<open>2 ^ 63\<close> to 0, and from then on
  \<open>size < l\<close> holds for ever.
\<close>

theorem a_new_size_raw_diverges: "a_new_size_raw e (2 ^ 63) h = Inl Diverges"
proof -
  have "unat ((2 ^ 63 :: size_t) + 1) = 2 ^ 63 + 1" by simp
  then have "a_new_size_raw_loop (2 ^ 63 + 1) A_MIN_STR_SIZE = None"
    using a_new_size_raw_loop_diverges[of "2 ^ 63 + 1" A_MIN_STR_SIZE 4]
    by (simp add: A_MIN_STR_SIZE_def)
  then show ?thesis by (simp add: a_new_size_raw_def)
qed


section \<open>The invariants of a created string\<close>

text \<open>
  Claim C3. Every successful call of a creation function that is not raw (\<^verbatim>\<open>a_new\<close>,
  \<^verbatim>\<open>a_new_len\<close>, \<^verbatim>\<open>a_new_size\<close>, \<^verbatim>\<open>a_new_cp\<close>, \<^verbatim>\<open>a_new_chr\<close> and, for a source
  string that satisfies the invariants, \<^verbatim>\<open>a_new_dup\<close>) returns a string whose
  \<open>byte_length\<close> is below its capacity and whose buffer holds 0 at index \<open>byte_length\<close>.
  A call with arguments that are not valid does not return in the model: it is a fault.
\<close>

theorem creation_terminated:
  "(a_new e cs1 h1 = Inr (Some s1, h1') \<longrightarrow> terminated h1' s1) \<and>
   (a_new_len e cs2 l2 h2 = Inr (Some s2, h2') \<longrightarrow> terminated h2' s2) \<and>
   (a_new_size e l3 h3 = Inr (Some s3, h3') \<longrightarrow> terminated h3' s3) \<and>
   (a_new_cp e cp4 repeat4 h4 = Inr (Some s4, h4') \<longrightarrow> terminated h4' s4) \<and>
   (a_new_chr e chr5 repeat5 h5 = Inr (Some s5, h5') \<longrightarrow> terminated h5' s5) \<and>
   (a_valid h6 p6 \<and> a_new_dup e (Some p6) h6 = Inr (Some s6, h6') \<longrightarrow> terminated h6' s6)"
  by (auto intro: a_new_terminated a_new_len_terminated a_new_size_terminated
      a_new_cp_terminated a_new_chr_terminated a_new_dup_terminated)

theorem creation_terminated_witness:
  "(\<exists>h'. a_new env_release (Some [0x61, 0x62, 0]) [] = Inr (Some 0, h') \<and> terminated h' 0) \<and>
   (\<exists>h'. a_new_len env_release (Some [0x61, 0x62, 0]) 2 [] = Inr (Some 0, h') \<and> terminated h' 0) \<and>
   (\<exists>h'. a_new_size env_release 5 [] = Inr (Some 0, h') \<and> terminated h' 0) \<and>
   (\<exists>h'. a_new_cp env_release 0x41 2 [] = Inr (Some 0, h') \<and> terminated h' 0) \<and>
   (\<exists>h'. a_new_chr env_release (Some [0xC3, 0xA9, 0]) 2 [] = Inr (Some 0, h') \<and>
      terminated h' 0) \<and>
   (\<exists>h'. a_valid [wide_source] 0 \<and>
      a_new_dup env_release (Some 0) [wide_source] = Inr (Some 1, h') \<and> terminated h' 1)"
proof -
  note T = creation_terminated[where e = env_release]
  have 1: "\<exists>h'. a_new env_release (Some [0x61, 0x62, 0]) [] = Inr (Some 0, h') \<and> terminated h' 0"
    using T[THEN conjunct1] run_a_new by blast
  have 2: "\<exists>h'. a_new_len env_release (Some [0x61, 0x62, 0]) 2 [] = Inr (Some 0, h') \<and>
      terminated h' 0"
    using T[THEN conjunct2, THEN conjunct1] run_a_new_len by blast
  have 3: "\<exists>h'. a_new_size env_release 5 [] = Inr (Some 0, h') \<and> terminated h' 0"
    using T[THEN conjunct2, THEN conjunct2, THEN conjunct1] run_a_new_size by blast
  have 4: "\<exists>h'. a_new_cp env_release 0x41 2 [] = Inr (Some 0, h') \<and> terminated h' 0"
    using T[THEN conjunct2, THEN conjunct2, THEN conjunct2, THEN conjunct1] run_a_new_cp
    by blast
  have 5: "\<exists>h'. a_new_chr env_release (Some [0xC3, 0xA9, 0]) 2 [] = Inr (Some 0, h') \<and>
      terminated h' 0"
    using T[THEN conjunct2, THEN conjunct2, THEN conjunct2, THEN conjunct2, THEN conjunct1]
      run_a_new_chr by blast
  have 6: "\<exists>h'. a_valid [wide_source] 0 \<and>
      a_new_dup env_release (Some 0) [wide_source] = Inr (Some 1, h') \<and> terminated h' 1"
    using T[THEN conjunct2, THEN conjunct2, THEN conjunct2, THEN conjunct2, THEN conjunct2]
      run_a_new_dup wide_source_valid by blast
  from 1 2 3 4 5 6 show ?thesis by blast
qed

section \<open>Duplicates\<close>

text \<open>
  Claim C10. For every valid source string, a successful \<^verbatim>\<open>a_new_dup\<close> leaves every
  allocation of the heap as it was, the source among them, and returns a new allocation,
  the one added to the heap and so not the source, whose header (\<open>len\<close>, \<open>size\<close> and \<open>mem\<close>)
  is the source's and whose buffer agrees with the source's on the content bytes and the
  terminator. The buffer allocated is as long as the smallest power of two that is at
  least 16 and at least \<open>a_size(s) + 2\<close>: \<open>mem\<close> is copied, not computed from it.
\<close>

theorem a_new_dup_copy:
  assumes "a_valid h p" and "a_new_dup e (Some p) h = Inr (Some d, h')"
  shows "d = length h \<and> d \<noteq> p \<and> length h' = Suc (length h) \<and> take (length h) h' = h \<and>
         d < length h' \<and> h' ! p = h ! p \<and>
         header (h' ! d) = header (h ! p) \<and>
         take (unat (a_size h p) + 1) (buff (h' ! d)) =
           take (unat (a_size h p) + 1) (buff (h ! p)) \<and>
         smallest_power_of_two (length (buff (h' ! d)))
           (max (unat A_MIN_STR_SIZE) (unat (a_size h p) + 2))"
proof -
  from a_new_dup_Some[OF assms] obtain sz :: size_t and junk where
    loop: "a_new_size_raw_loop (a_size h p + 1 + 1) A_MIN_STR_SIZE = Some sz" and
    le: "unat (a_size h p) + 1 \<le> unat sz" and d: "d = length h" and
    h': "h' = h @ [\<lparr>header = header (h ! p),
                buff = take (unat (a_size h p) + 1) (buff (h ! p)) @
                       drop (unat (a_size h p) + 1) (map junk [0..<unat sz])\<rparr>]"
    by auto
  from assms(1) have p: "p < length h" and
    inb: "unat (a_size h p) < length (buff (h ! p))" and
    fits: "unat sizeof_a_header + length (buff (h ! p)) < 2 ^ 64"
    by (simp_all add: a_valid_def terminated_def a_size_def)
  have n: "unat (a_size h p + 1 + 1) = unat (a_size h p) + 2"
    using inb fits by (simp add: sizeof_a_header_def unat_word_ariths)
  from loop have "unat (a_size h p + 1 + 1) \<le> 2 ^ 63"
    using capacity_returns_iff[of "a_size h p + 1 + 1"] by blast
  from capacity_smallest[OF this loop] n
  have sm: "smallest_power_of_two (unat sz) (max (unat A_MIN_STR_SIZE) (unat (a_size h p) + 2))"
    by simp
  from inb le have "length (buff (h' ! d)) = unat sz" using d h' by simp
  with sm d h' p inb show ?thesis by (simp add: nth_append)
qed

theorem a_new_dup_copy_witness:
  "a_valid [wide_source] 0 \<and>
   a_new_dup env_release (Some 0) [wide_source] =
     Inr (Some 1, [wide_source, \<lparr>header = \<lparr>len = 2, size_h = 2, mem = 32\<rparr>,
       buff = [0x61, 0x62, 0, 0xFF, 0xFF, 0xFF, 0xFF, 0xFF,
               0xFF, 0xFF, 0xFF, 0xFF, 0xFF, 0xFF, 0xFF, 0xFF]\<rparr>]) \<and>
   header wide_source = \<lparr>len = 2, size_h = 2, mem = 32\<rparr> \<and>
   take 3 (buff wide_source) = [0x61, 0x62, 0] \<and>
   smallest_power_of_two 16 (max (unat A_MIN_STR_SIZE) 4)"
proof -
  let ?d = "\<lparr>header = \<lparr>len = 2, size_h = 2, mem = 32\<rparr>,
       buff = [0x61, 0x62, 0, 0xFF, 0xFF, 0xFF, 0xFF, 0xFF,
               0xFF, 0xFF, 0xFF, 0xFF, 0xFF, 0xFF, 0xFF, 0xFF :: byte]\<rparr>"
  from a_new_dup_copy[OF wide_source_valid run_a_new_dup]
  have sm: "smallest_power_of_two (length (buff ([wide_source, ?d] ! 1)))
      (max (unat A_MIN_STR_SIZE) (unat (a_size [wide_source] 0) + 2))"
    by (elim conjE)
  have e1: "length (buff ([wide_source, ?d] ! 1)) = 16" by simp
  have e2: "unat (a_size [wide_source] 0) + 2 = 4" by (simp add: a_size_def wide_source_def)
  from sm have "smallest_power_of_two 16 (max (unat A_MIN_STR_SIZE) 4)" unfolding e1 e2 .
  moreover have "header wide_source = \<lparr>len = 2, size_h = 2, mem = 32\<rparr>"
    "take 3 (buff wide_source) = [0x61, 0x62, 0]"
    by (simp_all add: wide_source_def)
  ultimately show ?thesis using wide_source_valid run_a_new_dup by blast
qed

section \<open>The length a\_new\_len stores\<close>

text \<open>
  Claim C1. The claim is that a successful \<^verbatim>\<open>a_new_len(s, l)\<close> stores \<open>l\<close> as the size
  and, as the length, the number of code points in the first \<open>l\<close> bytes of \<open>s\<close>. The
  size is \<open>l\<close>, but the length is \<^verbatim>\<open>a_len_cstr(s)\<close>, the count over all of \<open>s\<close>: for the
  valid string \<open>ab\<close> and \<open>l = 1\<close> the buffer holds \<open>a\<close>, one code point, and the header
  says 2.
\<close>

theorem a_new_len_counts_whole_string:
  "valid_utf8 [0x61, 0x62, 0] \<and> strlen [0x61, 0x62, 0] = Inr 2 \<and>
   a_new_len env_release (Some [0x61, 0x62, 0]) 1 [] =
     Inr (Some 0, [\<lparr>header = \<lparr>len = 2, size_h = 1, mem = 16\<rparr>,
       buff = [0x61, 0, 0xFF, 0xFF, 0xFF, 0xFF, 0xFF, 0xFF,
               0xFF, 0xFF, 0xFF, 0xFF, 0xFF, 0xFF, 0xFF, 0xFF]\<rparr>]) \<and>
   a_len_cstr (take 1 [0x61, 0x62, 0] @ [0]) = Inr 1"
  by (simp add: valid_utf8_def strlen_def a_new_len_def env_release_def loop_3 a_size_chr_def
      run_raw)


section \<open>Out of memory\<close>

text \<open>
  Claim C5. Each of the seven creation functions (\<^verbatim>\<open>a_new_size_raw\<close>, \<^verbatim>\<open>a_new_size\<close>,
  \<^verbatim>\<open>a_new_len\<close>, \<^verbatim>\<open>a_new\<close>, \<^verbatim>\<open>a_new_dup\<close>, \<^verbatim>\<open>a_new_cp\<close>, \<^verbatim>\<open>a_new_chr\<close>) makes one
  request to the allocator, for a header and the capacity its size comes to. When the
  allocator returns no storage for that request, the function returns \<^verbatim>\<open>NULL\<close> and the
  heap is as it was before the call: nothing half built stays behind. The call has to
  reach the allocator: its assertions pass or are compiled out, and the capacity loop
  returns.
\<close>

theorem refused_request_returns_NULL:
  "(a_new_size_raw_loop (l1 + 1) A_MIN_STR_SIZE = Some c1 \<and>
    A_MALLOC e h (sizeof_a_header + c1) = None \<longrightarrow>
      a_new_size_raw e l1 h = Inr (None, h)) \<and>
   (a_new_size_raw_loop (l2 + 1) A_MIN_STR_SIZE = Some c2 \<and>
    A_MALLOC e h (sizeof_a_header + c2) = None \<longrightarrow>
      a_new_size e l2 h = Inr (None, h)) \<and>
   (a_new_size_raw_loop (l3 + 1 + 1) A_MIN_STR_SIZE = Some c3 \<and>
    A_MALLOC e h (sizeof_a_header + c3) = None \<longrightarrow>
      a_new_len e (Some bs3) l3 h = Inr (None, h)) \<and>
   ((NDEBUG e \<or> A_ASSERT_UTF8 e bs4) \<and> strlen bs4 = Inr l4 \<and>
    a_new_size_raw_loop (l4 + 1 + 1) A_MIN_STR_SIZE = Some c4 \<and>
    A_MALLOC e h (sizeof_a_header + c4) = None \<longrightarrow>
      a_new e (Some bs4) h = Inr (None, h)) \<and>
   (p5 < length h \<and>
    a_new_size_raw_loop (a_size h p5 + 1 + 1) A_MIN_STR_SIZE = Some c5 \<and>
    A_MALLOC e h (sizeof_a_header + c5) = None \<longrightarrow>
      a_new_dup e (Some p5) h = Inr (None, h)) \<and>
   ((NDEBUG e \<or> cp6 \<noteq> 0 \<and> A_ASSERT_CODEPOINT cp6) \<and>
    a_new_size_raw_loop (scast (snd (a_to_utf8_size cp6)) * repeat6 + 1 + 1) A_MIN_STR_SIZE =
      Some c6 \<and>
    A_MALLOC e h (sizeof_a_header + c6) = None \<longrightarrow>
      a_new_cp e cp6 repeat6 h = Inr (None, h)) \<and>
   ((NDEBUG e \<or> c7 \<noteq> 0) \<and>
    a_new_size_raw_loop (a_size_chr c7 * repeat7 + 1 + 1) A_MIN_STR_SIZE = Some c7' \<and>
    A_MALLOC e h (sizeof_a_header + c7') = None \<longrightarrow>
      a_new_chr e (Some (c7 # cs7)) repeat7 h = Inr (None, h))"
proof (intro conjI impI)
  note R = a_new_size_raw_no_storage
  show "a_new_size_raw e l1 h = Inr (None, h)"
    if "a_new_size_raw_loop (l1 + 1) A_MIN_STR_SIZE = Some c1 \<and>
        A_MALLOC e h (sizeof_a_header + c1) = None"
    using that by (auto intro: R)
  show "a_new_size e l2 h = Inr (None, h)"
    if "a_new_size_raw_loop (l2 + 1) A_MIN_STR_SIZE = Some c2 \<and>
        A_MALLOC e h (sizeof_a_header + c2) = None"
    using that R[of l2 c2 e h] by (simp add: a_new_size_def)
  show "a_new_len e (Some bs3) l3 h = Inr (None, h)"
    if "a_new_size_raw_loop (l3 + 1 + 1) A_MIN_STR_SIZE = Some c3 \<and>
        A_MALLOC e h (sizeof_a_header + c3) = None"
    using that R[of "l3 + 1" c3 e h] by (simp add: a_new_len_def)
  show "a_new e (Some bs4) h = Inr (None, h)"
    if "(NDEBUG e \<or> A_ASSERT_UTF8 e bs4) \<and> strlen bs4 = Inr l4 \<and>
        a_new_size_raw_loop (l4 + 1 + 1) A_MIN_STR_SIZE = Some c4 \<and>
        A_MALLOC e h (sizeof_a_header + c4) = None"
    using that R[of "l4 + 1" c4 e h] by (auto simp: a_new_def a_new_len_def)
  show "a_new_dup e (Some p5) h = Inr (None, h)"
    if "p5 < length h \<and>
        a_new_size_raw_loop (a_size h p5 + 1 + 1) A_MIN_STR_SIZE = Some c5 \<and>
        A_MALLOC e h (sizeof_a_header + c5) = None"
    using that R[of "a_size h p5 + 1" c5 e h] by (simp add: a_new_dup_def)
  show "a_new_cp e cp6 repeat6 h = Inr (None, h)"
    if "(NDEBUG e \<or> cp6 \<noteq> 0 \<and> A_ASSERT_CODEPOINT cp6) \<and>
        a_new_size_raw_loop (scast (snd (a_to_utf8_size cp6)) * repeat6 + 1 + 1) A_MIN_STR_SIZE =
          Some c6 \<and>
        A_MALLOC e h (sizeof_a_header + c6) = None"
    using that R[of "scast (snd (a_to_utf8_size cp6)) * repeat6 + 1" c6 e h]
    by (auto simp: a_new_cp_def a_new_chr_internal_def Let_def split: prod.splits)
  show "a_new_chr e (Some (c7 # cs7)) repeat7 h = Inr (None, h)"
    if "(NDEBUG e \<or> c7 \<noteq> 0) \<and>
        a_new_size_raw_loop (a_size_chr c7 * repeat7 + 1 + 1) A_MIN_STR_SIZE = Some c7' \<and>
        A_MALLOC e h (sizeof_a_header + c7') = None"
    using that R[of "a_size_chr c7 * repeat7 + 1" c7' e h]
    by (auto simp: a_new_chr_def a_new_chr_internal_def Let_def)
qed

theorem refused_request_returns_NULL_witness:
  "A_MALLOC env_tight [wide_source] 24 \<noteq> None \<and>
   A_MALLOC env_tight [wide_source] (sizeof_a_header + 16) = None \<and>
   a_new_size_raw env_tight 5 [wide_source] = Inr (None, [wide_source]) \<and>
   a_new_size env_tight 5 [wide_source] = Inr (None, [wide_source]) \<and>
   a_new_len env_tight (Some [0x61, 0x62, 0]) 2 [wide_source] = Inr (None, [wide_source]) \<and>
   a_new env_tight (Some [0x61, 0x62, 0]) [wide_source] = Inr (None, [wide_source]) \<and>
   a_new_dup env_tight (Some 0) [wide_source] = Inr (None, [wide_source]) \<and>
   a_new_cp env_tight 0x41 2 [wide_source] = Inr (None, [wide_source]) \<and>
   a_new_chr env_tight (Some [0xC3, 0xA9, 0]) 2 [wide_source] = Inr (None, [wide_source])"
proof -
  have nd: "NDEBUG env_tight" by (simp add: env_tight_def)
  have sl: "strlen [0x61, 0x62, 0] = Inr 2" by (simp add: strlen_def)
  have sz: "a_size [wide_source] 0 = 2" by (simp add: a_size_def wide_source_def)
  have enc: "scast (snd (a_to_utf8_size 0x41)) = (1 :: size_t)" by (simp add: a_to_utf8_size_def)
  have chr: "a_size_chr 0xC3 = 2" by (simp add: a_size_chr_def)
  have l6: "a_new_size_raw_loop 6 A_MIN_STR_SIZE = Some 16"
    and l4: "a_new_size_raw_loop 4 A_MIN_STR_SIZE = Some 16"
    by (simp_all add: A_MIN_STR_SIZE_def loop_6 loop_4)
  from refused_request_returns_NULL[where e = env_tight and h = "[wide_source]" and
      ?l1.0 = 5 and ?c1.0 = 16 and ?l2.0 = 5 and ?c2.0 = 16 and
      ?l3.0 = 2 and ?c3.0 = 16 and ?bs3.0 = "[0x61, 0x62, 0]" and
      ?bs4.0 = "[0x61, 0x62, 0]" and ?l4.0 = 2 and ?c4.0 = 16 and
      ?p5.0 = 0 and ?c5.0 = 16 and ?cp6.0 = "0x41" and ?repeat6.0 = 2 and ?c6.0 = 16 and
      ?c7.0 = "0xC3" and ?cs7.0 = "[0xA9, 0]" and ?repeat7.0 = 2 and ?c7' = 16]
  show ?thesis
    using nd sl malloc_tight_serves[of "[wide_source]"] malloc_tight_refuses[of "[wide_source]"]
    by (simp add: sz enc chr l6 l4)
qed

section \<open>NULL arguments\<close>

text \<open>
  Claim C7. In a build with \<^verbatim>\<open>A_NULL_PASSTHROUGH\<close> and with the standard asserts
  disabled, \<^verbatim>\<open>a_new_len\<close> and \<^verbatim>\<open>a_new_dup\<close> return \<^verbatim>\<open>NULL\<close> at once for a \<^verbatim>\<open>NULL\<close>
  string argument: the argument is not read, nothing is allocated, the heap is as it was.
\<close>

theorem NULL_passthrough:
  assumes "A_NULL_PASSTHROUGH e" and "NDEBUG e"
  shows "a_new_len e None l h = Inr (None, h) \<and> a_new_dup e None h = Inr (None, h)"
  using assms by (simp add: a_new_len_def a_new_dup_def)

theorem NULL_passthrough_witness:
  "A_NULL_PASSTHROUGH env_passthrough \<and> NDEBUG env_passthrough \<and>
   a_new_len env_passthrough None 5 [wide_source] = Inr (None, [wide_source]) \<and>
   a_new_dup env_passthrough None [wide_source] = Inr (None, [wide_source])"
proof -
  have a: "A_NULL_PASSTHROUGH env_passthrough" and b: "NDEBUG env_passthrough"
    by (simp_all add: env_passthrough_def)
  from NULL_passthrough[OF a b, of 5 "[wide_source]"] a b show ?thesis by simp
qed




section \<open>The assertions of a\_new and a\_new\_cp\<close>

text \<open>
  Claim C4, as amended. \<^verbatim>\<open>A_ASSERT_UTF8(s)\<close> asserts \<^verbatim>\<open>!a_is_valid_utf8(s)\<close>, so it
  passes exactly when the validator returns \<^verbatim>\<open>NULL\<close>. Given a validator that returns
  \<^verbatim>\<open>NULL\<close> for a valid UTF-8 string and a pointer (to the first invalid byte) for every
  other, the assertion passes for every valid string and fails for every invalid one, and
  \<^verbatim>\<open>a_new\<close> aborts on an assertion exactly in a debug build on an invalid string.
\<close>

theorem A_ASSERT_UTF8_distinguishes:
  assumes "\<forall>s. (a_is_valid_utf8 e s = None) = valid_utf8 s"
  shows "A_ASSERT_UTF8 e s = valid_utf8 s \<and>
         (a_new e (Some s) h = Inl AssertFail) = (\<not> NDEBUG e \<and> \<not> valid_utf8 s)"
proof -
  from assms have a: "A_ASSERT_UTF8 e s = valid_utf8 s" by (simp add: A_ASSERT_UTF8_def)
  show ?thesis
  proof (cases "\<not> NDEBUG e \<and> \<not> valid_utf8 s")
    case True
    with a have "a_new e (Some s) h = Inl AssertFail" by (simp add: a_new_def)
    with a True show ?thesis by simp
  next
    case False
    with a have "NDEBUG e \<or> A_ASSERT_UTF8 e (case Some s of None \<Rightarrow> [0] | Some bs \<Rightarrow> bs)"
      by auto
    from a_new_no_abort[OF this] a False show ?thesis by simp
  qed
qed

theorem A_ASSERT_UTF8_distinguishes_witness:
  "(\<forall>s. (a_is_valid_utf8 env_debug_NULL s = None) = valid_utf8 s) \<and>
   valid_utf8 [0xC3, 0xA9, 0] \<and>
   A_ASSERT_UTF8 env_debug_NULL [0xC3, 0xA9, 0] \<and>
   a_new env_debug_NULL (Some [0xC3, 0xA9, 0]) [] \<noteq> Inl AssertFail \<and>
   \<not> valid_utf8 [0xC0, 0x80, 0] \<and>
   \<not> A_ASSERT_UTF8 env_debug_NULL [0xC0, 0x80, 0] \<and>
   a_new env_debug_NULL (Some [0xC0, 0x80, 0]) [] = Inl AssertFail"
proof -
  have v: "\<forall>s. (a_is_valid_utf8 env_debug_NULL s = None) = valid_utf8 s"
    by (simp add: env_debug_NULL_def validate_or_NULL_def)
  have d: "\<not> NDEBUG env_debug_NULL" by (simp add: env_debug_NULL_def)
  from A_ASSERT_UTF8_distinguishes[OF v, of "[0xC3, 0xA9, 0]" "[]"]
    A_ASSERT_UTF8_distinguishes[OF v, of "[0xC0, 0x80, 0]" "[]"]
    v d valid_e_acute invalid_overlong
  show ?thesis by simp
qed

text \<open>
  With a validator that never returns \<^verbatim>\<open>NULL\<close>, as the spec describes it (a pointer to
  the first invalid byte or to the end of the string), the assertion fails for every
  string, and \<^verbatim>\<open>a_new\<close> aborts on every argument in every debug build.
\<close>

lemma A_ASSERT_UTF8_never_passes:
  assumes "\<forall>s. a_is_valid_utf8 e s \<noteq> None"
  shows "\<not> A_ASSERT_UTF8 e s \<and> ((a_new e cs h = Inl AssertFail) = (\<not> NDEBUG e))"
proof -
  from assms have n: "\<not> A_ASSERT_UTF8 e s" for s by (simp add: A_ASSERT_UTF8_def)
  show ?thesis
  proof (cases "NDEBUG e")
    case True
    then have "a_new e cs h \<noteq> Inl AssertFail"
      unfolding a_new_def Let_def
      using a_new_len_no_abort
      by (auto split: sum.splits option.splits simp: strlen_def)
    with True n show ?thesis by simp
  next
    case False
    with n show ?thesis by (simp add: a_new_def Let_def)
  qed
qed

text \<open>
  Claim C4 as it was stated fails: the string \<open>a\<close> is valid UTF-8, the validator of the
  spec returns the pointer to its end, which is not \<^verbatim>\<open>NULL\<close>, and the assertion aborts
  \<^verbatim>\<open>a_new\<close> in a debug build.
\<close>

theorem A_ASSERT_UTF8_valid_input_aborts:
  "valid_utf8 [0x61, 0] \<and> validate [0x61, 0] = Some 1 \<and>
   \<not> A_ASSERT_UTF8 env_debug [0x61, 0] \<and>
   a_new env_debug (Some [0x61, 0]) [] = Inl AssertFail"
  by (simp add: valid_utf8_def validate_def A_ASSERT_UTF8_def env_debug_def a_new_def)

text \<open>
  Claim C6, as amended. \<^verbatim>\<open>a_new_cp(cp, repeat)\<close> aborts on an assertion exactly in a
  debug build with \<open>cp = 0\<close> or \<open>cp\<close> outside \<open>[0, 0x10FFFF]\<close>. For every other \<open>cp\<close>, the
  surrogates \<open>U+D800..U+DFFF\<close> among them, the assertions pass.
\<close>

theorem a_new_cp_assertions:
  "(a_new_cp e cp repeat h = Inl AssertFail) =
     (\<not> NDEBUG e \<and> (cp = 0 \<or> sint cp < 0 \<or> 0x10FFFF < sint cp))"
proof (cases "\<not> NDEBUG e \<and> (cp = 0 \<or> sint cp < 0 \<or> 0x10FFFF < sint cp)")
  case True
  then show ?thesis
    by (auto simp: a_new_cp_def A_ASSERT_CODEPOINT_def A_MIN_CP_def A_MAX_CP_def)
next
  case False
  then have "a_new_cp e cp repeat h \<noteq> Inl AssertFail"
    using a_new_chr_internal_no_abort
    by (auto simp: a_new_cp_def A_ASSERT_CODEPOINT_def A_MIN_CP_def A_MAX_CP_def
        split: prod.splits)
  with False show ?thesis by simp
qed

text \<open>
  Claim C6 as it was stated fails: the surrogate \<open>U+D800\<close> passes \<^verbatim>\<open>A_ASSERT_CODEPOINT\<close>,
  and \<^verbatim>\<open>a_new_cp\<close> in a debug build returns a string of its three bytes.
\<close>

theorem a_new_cp_surrogate_passes:
  "A_ASSERT_CODEPOINT 0xD800 \<and>
   a_new_cp env_debug 0xD800 1 [] =
     Inr (Some 0, [\<lparr>header = \<lparr>len = 1, size_h = 3, mem = 16\<rparr>,
       buff = [0xED, 0xA0, 0x80, 0, 0xFF, 0xFF, 0xFF, 0xFF,
               0xFF, 0xFF, 0xFF, 0xFF, 0xFF, 0xFF, 0xFF, 0xFF]\<rparr>])"
  by (simp add: A_ASSERT_CODEPOINT_def A_MIN_CP_def A_MAX_CP_def a_new_cp_def
      a_to_utf8_size_def a_new_chr_internal_def a_new_chr_internal_loop.simps env_debug_def
      loop_5 run_raw)

end
